theory Spec2Isabelle
  imports Main "HOL-Library.Word"
begin

section \<open>Heteroflow: the node of the task graph (heteroflow/core/graph.hpp)\<close>

text \<open>
  The header defines one class, \<open>hf::Node\<close>: a vertex of the task graph that carries a
  payload (\<open>_handle\<close>), two adjacency lists, an atomic counter of incoming edges and the
  parent pointer and size counter of a union-find forest.

  Nodes refer to each other by pointer (\<open>Node*\<close>) and the methods write through these
  pointers, so the model keeps an explicit store from addresses to node records; a method
  takes the address \<open>this\<close> and the store and returns the updated store. The private
  members lose their leading underscore (\<open>_parent\<close> is \<open>parent\<close>); the private methods
  \<open>_root\<close>, \<open>_union\<close> and \<open>_precede\<close> are \<open>Node_root\<close>, \<open>Node_union\<close> and
  \<open>Node_precede\<close>.
\<close>

subsection \<open>Data model\<close>

type_synonym addr = nat

text \<open>
  The five payload structs, in the order of the variant
  \<open>nstd::variant<Host, Pull, Push, Kernel, Transfer>\<close>. The callable \<open>work\<close> has a
  different \<open>std::function\<close> type in each struct; the model takes all of them from one
  type parameter \<open>'w\<close>. A pointer that may be null is an \<open>option\<close>.
\<close>

datatype 'w handle =
    Host (work: 'w)
  | Pull (work: 'w) (device: int) (d_data: "nat option") (d_size: nat)
  | Push (work: 'w) (source: "addr option")
  | Kernel (work: 'w) (device: int) (sources: "addr list")
  | Transfer (work: 'w) (source: "addr option") (target: "addr option")

text \<open>\<open>_handle.index()\<close>: the position of the active alternative in the variant.\<close>

fun handle_index :: "'w handle \<Rightarrow> nat" where
  "handle_index (Host w) = 0"
| "handle_index (Pull w d p n) = 1"
| "handle_index (Push w s) = 2"
| "handle_index (Kernel w d ss) = 3"
| "handle_index (Transfer w s t) = 4"

definition HOST_IDX :: int where "HOST_IDX = 0"
definition PULL_IDX :: int where "PULL_IDX = 1"
definition PUSH_IDX :: int where "PUSH_IDX = 2"
definition KERNEL_IDX :: int where "KERNEL_IDX = 3"
definition TRANSFER_IDX :: int where "TRANSFER_IDX = 4"

text \<open>
  The data members of \<open>Node\<close>. \<open>_num_dependents\<close> is a \<open>std::atomic<int>\<close>, whose
  \<open>fetch_add\<close> wraps around in two's complement: a 32-bit word. \<open>_tree_size\<close> is a plain
  \<open>int\<close>, whose overflow is undefined in C++: the model uses unbounded integers for it and
  so describes the runs in which no size counter leaves the range of \<open>int\<close>.
\<close>

record 'w node =
  name :: string
  handle :: "'w handle"
  successors :: "addr list"
  dependents :: "addr list"
  num_dependents :: "32 word"
  parent :: addr
  tree_size :: int
  group :: "addr option"
  topology :: "addr option"

type_synonym 'w store = "addr \<Rightarrow> 'w node"

text \<open>
  The constructor forwards its arguments to the payload; every other member takes its
  default member initialiser, in particular \<open>_parent {this}\<close> and \<open>_tree_size {1}\<close>.
\<close>

definition Node :: "addr \<Rightarrow> 'w handle \<Rightarrow> 'w node" where
  "Node this h =
     \<lparr>name = [], handle = h, successors = [], dependents = [], num_dependents = 0,
      parent = this, tree_size = 1, group = None, topology = None\<rparr>"

text \<open>A population of freshly constructed nodes, one at every address.\<close>

definition fresh :: "(addr \<Rightarrow> 'w handle) \<Rightarrow> 'w store" where
  "fresh h = (\<lambda>a. Node a (h a))"

text \<open>The payloads of a population of Host nodes whose callable carries no data.\<close>

definition hosts :: "addr \<Rightarrow> unit handle" where
  "hosts a = Host ()"

subsection \<open>Classification predicates\<close>

definition is_host :: "'w node \<Rightarrow> bool" where
  "is_host n \<longleftrightarrow> int (handle_index (handle n)) = HOST_IDX"

definition is_pull :: "'w node \<Rightarrow> bool" where
  "is_pull n \<longleftrightarrow> int (handle_index (handle n)) = PULL_IDX"

definition is_push :: "'w node \<Rightarrow> bool" where
  "is_push n \<longleftrightarrow> int (handle_index (handle n)) = PUSH_IDX"

definition is_transfer :: "'w node \<Rightarrow> bool" where
  "is_transfer n \<longleftrightarrow> int (handle_index (handle n)) = TRANSFER_IDX"

definition is_kernel :: "'w node \<Rightarrow> bool" where
  "is_kernel n \<longleftrightarrow> int (handle_index (handle n)) = KERNEL_IDX"

definition is_device :: "'w node \<Rightarrow> bool" where
  "is_device n \<longleftrightarrow> (is_push n \<or> is_pull n \<or> is_kernel n \<or> is_transfer n)"

definition Node_num_successors :: "'w node \<Rightarrow> nat" where
  "Node_num_successors n = length (successors n)"

definition Node_num_dependents :: "'w node \<Rightarrow> nat" where
  "Node_num_dependents n = length (dependents n)"

subsection \<open>Union-find forest\<close>

text \<open>
  \<open>Node::_root\<close>. The loop of the source,
  \<^verbatim>\<open>while(ptr != _parent) { _parent = _parent->_parent; ptr = _parent; }\<close>,
  reads and writes the member \<open>_parent\<close> of \<open>this\<close> in every iteration (not the parent of
  \<open>ptr\<close>); \<open>root_loop this ptr s\<close> is the loop from the state where the local variable is
  \<open>ptr\<close> and the store is \<open>s\<close>. The function returns the final \<open>ptr\<close> and the store.
\<close>

function root_loop :: "addr \<Rightarrow> addr \<Rightarrow> 'w store \<Rightarrow> addr \<times> 'w store" where
  "root_loop this ptr s =
     (if ptr \<noteq> parent (s this) then
        let s' = s(this := (s this)\<lparr>parent := parent (s (parent (s this)))\<rparr>)
        in root_loop this (parent (s' this)) s'
      else (ptr, s))"
  by pat_completeness auto
termination
  by (relation "measure (\<lambda>(this, ptr, s). if ptr \<noteq> parent (s this) then 1 else 0)") auto

definition Node_root :: "addr \<Rightarrow> 'w store \<Rightarrow> addr \<times> 'w store" where
  "Node_root this s = root_loop this this s"

text \<open>
  \<open>Node::_union\<close>. The \<open>assert\<close> of the source is a branch of the model: with assertions
  compiled in (\<open>asserts\<close>), equal roots abort the program; with \<open>NDEBUG\<close> the check is
  absent and the code below it runs.
\<close>

datatype error = AssertionFailed

definition Node_union :: "bool \<Rightarrow> addr \<Rightarrow> addr \<Rightarrow> 'w store \<Rightarrow> error + 'w store" where
  "Node_union asserts this y s =
     (if parent (s this) = parent (s y) then Inr s
      else
        let (xroot, s1) = Node_root this s;
            (yroot, s2) = Node_root y s1
        in if asserts \<and> xroot = yroot then Inl AssertionFailed
           else
             let xrank = tree_size (s2 xroot);
                 yrank = tree_size (s2 yroot)
             in if xrank < yrank then
                  let s3 = s2(xroot := (s2 xroot)\<lparr>parent := yroot\<rparr>)
                  in Inr (s3(yroot := (s3 yroot)\<lparr>tree_size := tree_size (s3 yroot) + xrank\<rparr>))
                else
                  let s3 = s2(yroot := (s2 yroot)\<lparr>parent := xroot\<rparr>)
                  in Inr (s3(xroot := (s3 xroot)\<lparr>tree_size := tree_size (s3 xroot) + yrank\<rparr>)))"

text \<open>
  A sequence of calls \<open>x->_union(y)\<close>, in order; the run ends at the first failed
  assertion.
\<close>

fun unions :: "bool \<Rightarrow> (addr \<times> addr) list \<Rightarrow> 'w store \<Rightarrow> error + 'w store" where
  "unions asserts [] s = Inr s"
| "unions asserts ((x, y) # cs) s =
     (case Node_union asserts x y s of Inl e \<Rightarrow> Inl e | Inr s' \<Rightarrow> unions asserts cs s')"

text \<open>
  What the specification calls connected: related by the calls made, directly or
  transitively, in either direction.
\<close>

definition connected :: "(addr \<times> addr) list \<Rightarrow> addr \<Rightarrow> addr \<Rightarrow> bool" where
  "connected calls a b \<longleftrightarrow> (a, b) \<in> (set calls \<union> (set calls)\<inverse>)\<^sup>*"

subsection \<open>Dependency edges\<close>

text \<open>
  \<open>Node::_precede\<close>: two \<open>push_back\<close>s and one \<open>fetch_add(1)\<close>, in the order of the
  source. The argument \<open>rhs\<close> is the address of a node; the source dereferences it
  unchecked.
\<close>

definition Node_precede :: "addr \<Rightarrow> addr \<Rightarrow> 'w store \<Rightarrow> 'w store" where
  "Node_precede this rhs s =
     (let s1 = s(this := (s this)\<lparr>successors := successors (s this) @ [rhs]\<rparr>);
          s2 = s1(rhs := (s1 rhs)\<lparr>dependents := dependents (s1 rhs) @ [this]\<rparr>)
      in s2(rhs := (s2 rhs)\<lparr>num_dependents := num_dependents (s2 rhs) + 1\<rparr>))"

text \<open>A sequence of calls \<open>u->_precede(v)\<close>, in order.\<close>

fun precedes :: "(addr \<times> addr) list \<Rightarrow> 'w store \<Rightarrow> 'w store" where
  "precedes [] s = s"
| "precedes ((u, v) # cs) s = precedes cs (Node_precede u v s)"

text \<open>The number of calls in a sequence that name \<open>v\<close> as target.\<close>

definition calls_to :: "addr \<Rightarrow> (addr \<times> addr) list \<Rightarrow> nat" where
  "calls_to v calls = length (filter (\<lambda>c. snd c = v) calls)"

subsection \<open>Rendering\<close>

text \<open>
  \<open>Node::dump(std::ostream&)\<close>. The stream is the string written so far and \<open>os << x\<close>
  appends to it. How \<open>operator<<\<close> prints a pointer is implementation-defined: the
  printer \<open>pr\<close> is a parameter. The \<open>switch\<close> is on the numeric index of the variant, with
  its \<open>default\<close> last.
\<close>

definition dq :: char where "dq = CHR 0x22"

definition nl :: char where "nl = CHR 0x0A"

definition dump_os :: "(addr \<Rightarrow> string) \<Rightarrow> addr \<Rightarrow> 'w store \<Rightarrow> string \<Rightarrow> string" where
  "dump_os pr this s os =
     (let os1 = os @ ''p'' @ pr this @ ''[label='' @ [dq];
          os2 = (if name (s this) = [] then os1 @ ''p'' @ pr this @ [dq]
                 else os1 @ name (s this) @ [dq]);
          i = handle_index (handle (s this));
          os3 = (if i = 1 then os2 @ '' style=filled fillcolor='' @ [dq] @ ''cyan'' @ [dq]
                 else if i = 2 then
                   os2 @ '' style=filled fillcolor='' @ [dq] @ ''springgreen'' @ [dq]
                 else if i = 3 then
                   os2 @ '' style=filled fillcolor='' @ [dq] @ ''black'' @ [dq]
                     @ '' fontcolor='' @ [dq] @ ''white'' @ [dq]
                 else if i = 4 then os2 @ '' style=filled fillcolor='' @ [dq] @ ''coral'' @ [dq]
                 else os2);
          os4 = os3 @ ''];'' @ [nl]
      in foldl (\<lambda>os su. os @ ''p'' @ pr this @ '' -> '' @ ''p'' @ pr su @ '';'' @ [nl])
           os4 (successors (s this)))"

text \<open>\<open>Node::dump()\<close>: the same into an empty \<open>std::ostringstream\<close>, returned as a string.\<close>

definition dump :: "(addr \<Rightarrow> string) \<Rightarrow> addr \<Rightarrow> 'w store \<Rightarrow> string" where
  "dump pr this s = dump_os pr this s []"

text \<open>
  The output format in the words of the specification: a declaration line
  \<open>p<address>[label="<name-or-address>"...];\<close> whose style is chosen by the payload kind,
  then one edge line \<open>p<address> -> p<successor-address>;\<close> for each successor.
\<close>

definition spec_label :: "(addr \<Rightarrow> string) \<Rightarrow> addr \<Rightarrow> 'w node \<Rightarrow> string" where
  "spec_label pr a n = (if name n = [] then ''p'' @ pr a else name n)"

fun spec_style :: "'w handle \<Rightarrow> string" where
  "spec_style (Pull w d p k) = '' style=filled fillcolor='' @ [dq] @ ''cyan'' @ [dq]"
| "spec_style (Push w src) = '' style=filled fillcolor='' @ [dq] @ ''springgreen'' @ [dq]"
| "spec_style (Kernel w d ss) =
     '' style=filled fillcolor='' @ [dq] @ ''black'' @ [dq] @ '' fontcolor='' @ [dq] @ ''white'' @ [dq]"
| "spec_style (Transfer w src tgt) = '' style=filled fillcolor='' @ [dq] @ ''coral'' @ [dq]"
| "spec_style (Host w) = []"

definition spec_decl_line :: "(addr \<Rightarrow> string) \<Rightarrow> addr \<Rightarrow> 'w node \<Rightarrow> string" where
  "spec_decl_line pr a n =
     ''p'' @ pr a @ ''[label='' @ [dq] @ spec_label pr a n @ [dq] @ spec_style (handle n)
       @ ''];'' @ [nl]"

definition spec_edge_line :: "(addr \<Rightarrow> string) \<Rightarrow> addr \<Rightarrow> addr \<Rightarrow> string" where
  "spec_edge_line pr a b = ''p'' @ pr a @ '' -> p'' @ pr b @ '';'' @ [nl]"

subsection \<open>Device group\<close>

text \<open>
  \<open>Node::DeviceGroup\<close>: two \<open>std::atomic<int>\<close> members with the initialisers
  \<open>device_id {-1}\<close> and \<open>num_tasks {0}\<close>.
\<close>

record DeviceGroup =
  device_id :: "32 word"
  num_tasks :: "32 word"

definition DeviceGroup_init :: DeviceGroup where
  "DeviceGroup_init = \<lparr>device_id = - 1, num_tasks = 0\<rparr>"

text \<open>
  Modelled from the spec: the operation \<open>claim(group, proposedDevice)\<close> is not in
  graph.hpp, which only declares the group's two atomic members. The specification describes
  it as one atomic compare-and-swap: if the group's device id is still unassigned (the
  initialiser \<open>-1\<close> of the source), install \<open>proposedDevice\<close> and return it; if already
  assigned, ignore \<open>proposedDevice\<close> and return the installed value.
\<close>

definition claim :: "DeviceGroup \<Rightarrow> 32 word \<Rightarrow> 32 word \<times> DeviceGroup" where
  "claim g proposedDevice =
     (if device_id g = - 1 then (proposedDevice, g\<lparr>device_id := proposedDevice\<rparr>)
      else (device_id g, g))"

text \<open>
  Modelled from the spec: concurrent calls of \<open>claim\<close> on one group. Each call is a single
  atomic step on \<open>device_id\<close>, so an interleaving of the calls is the order in which their
  steps take effect; \<open>claims order g\<close> runs the calls with the proposals \<open>order\<close> in that
  order and returns what each call returned together with the final group.
\<close>

fun claims :: "32 word list \<Rightarrow> DeviceGroup \<Rightarrow> 32 word list \<times> DeviceGroup" where
  "claims [] g = ([], g)"
| "claims (d # ds) g =
     (let (r, g1) = claim g d; (rs, g2) = claims ds g1 in (r # rs, g2))"

section \<open>Properties\<close>

subsection \<open>Classification\<close>

lemmas idx_defs = HOST_IDX_def PULL_IDX_def PUSH_IDX_def KERNEL_IDX_def TRANSFER_IDX_def

lemmas is_kind_defs = is_host_def is_pull_def is_push_def is_transfer_def is_kernel_def

text \<open>
  Claim C7. For every node exactly one of the five predicates \<open>is_host\<close>, \<open>is_pull\<close>,
  \<open>is_push\<close>, \<open>is_transfer\<close>, \<open>is_kernel\<close> is true, and it is the one of the active
  payload; \<open>is_device\<close> is true exactly for the payloads Pull, Push, Transfer and Kernel,
  which is exactly when \<open>is_host\<close> is false.
\<close>

theorem classification_exclusive_exhaustive:
  fixes n :: "'w node"
  shows "length (filter id [is_host n, is_pull n, is_push n, is_transfer n, is_kernel n]) = 1
    \<and> is_host n = (\<exists>w. handle n = Host w)
    \<and> is_pull n = (\<exists>w d p k. handle n = Pull w d p k)
    \<and> is_push n = (\<exists>w s. handle n = Push w s)
    \<and> is_transfer n = (\<exists>w s t. handle n = Transfer w s t)
    \<and> is_kernel n = (\<exists>w d ss. handle n = Kernel w d ss)
    \<and> is_device n = (\<not> is_host n)
    \<and> is_device n =
           (case handle n of Host w \<Rightarrow> False | Pull w d p k \<Rightarrow> True | Push w s \<Rightarrow> True
            | Kernel w d ss \<Rightarrow> True | Transfer w s t \<Rightarrow> True)"
  by (cases "handle n") (simp_all add: is_device_def is_kind_defs idx_defs)

subsection \<open>What \<open>_root\<close> computes\<close>

declare root_loop.simps [simp del]

lemma root_loop_done: "ptr = parent (s this) \<Longrightarrow> root_loop this ptr s = (ptr, s)"
  by (subst root_loop.simps) simp

text \<open>
  The body of the loop ends with \<open>ptr = _parent\<close>, which is the negation of the loop's
  condition: the loop runs at most once. \<open>_root\<close> returns \<open>this\<close> when \<open>this\<close> is its own
  parent, and otherwise the parent of its parent, which it also stores as the new parent.
\<close>

lemma Node_root_unfold:
  "Node_root this s =
     (if parent (s this) = this then (this, s)
      else (parent (s (parent (s this))),
            s(this := (s this)\<lparr>parent := parent (s (parent (s this)))\<rparr>)))"
  unfolding Node_root_def
  by (subst root_loop.simps) (simp add: Let_def root_loop_done)

text \<open>On a node at depth at most two the result is a node that is its own parent.\<close>

lemma Node_root_shallow:
  assumes "parent (s (parent (s (parent (s x))))) = parent (s (parent (s x)))"
  shows "parent (snd (Node_root x s) (fst (Node_root x s))) = fst (Node_root x s)"
  using assms by (simp add: Node_root_unfold)

lemma Node_union_same_parent:
  "parent (s x) = parent (s y) \<Longrightarrow> Node_union asserts x y s = Inr s"
  by (simp add: Node_union_def)

lemmas uf_eval = Node_union_def Node_root_unfold fresh_def Node_def Let_def

subsection \<open>A chain of length three\<close>

text \<open>
  Eight fresh nodes \<open>0, \<dots>, 7\<close> and the calls \<open>0->_union(1)\<close>, \<open>2->_union(3)\<close>,
  \<open>0->_union(2)\<close>, \<open>4->_union(5)\<close>, \<open>6->_union(7)\<close>, \<open>4->_union(6)\<close>, \<open>0->_union(4)\<close>. Every
  call joins two roots of equal size, no assertion fails, and the forest ends with the
  chain \<open>7 \<rightarrow> 6 \<rightarrow> 4 \<rightarrow> 0\<close>.

  Claim C1 (find returns the true root, never an intermediate ancestor) does not hold of
  the code: on this forest \<open>7->_root()\<close> returns node \<open>4\<close>, whose parent is \<open>0\<close>, before
  and after the call.
\<close>

theorem root_returns_intermediate_ancestor:
  "\<exists>s. unions True [(0, 1), (2, 3), (0, 2), (4, 5), (6, 7), (4, 6), (0, 4)] (fresh h) = Inr s
     \<and> map (\<lambda>a. parent (s a)) [7, 6, 4, 0] = [6, 4, 0, 0]
     \<and> fst (Node_root 7 s) = 4
     \<and> parent (s 4) \<noteq> 4
     \<and> parent (snd (Node_root 7 s) 4) \<noteq> 4"
  by (simp add: uf_eval)

text \<open>
  Claim C2 (two nodes have the same find exactly when the calls connected them) does not
  hold of the code: on the same forest the nodes \<open>7\<close> and \<open>0\<close> are connected by the calls
  \<open>(6, 7)\<close>, \<open>(4, 6)\<close>, \<open>(0, 4)\<close>, yet \<open>7->_root()\<close> is \<open>4\<close> and \<open>0->_root()\<close> is \<open>0\<close>, also
  when the second call runs in the store the first one left.
\<close>

theorem connected_nodes_different_roots:
  "\<exists>s. unions True [(0, 1), (2, 3), (0, 2), (4, 5), (6, 7), (4, 6), (0, 4)] (fresh h) = Inr s
     \<and> connected [(0, 1), (2, 3), (0, 2), (4, 5), (6, 7), (4, 6), (0, 4)] 7 0
     \<and> fst (Node_root 7 s) = 4 \<and> fst (Node_root 0 s) = 0
     \<and> fst (Node_root 0 (snd (Node_root 7 s))) = 0"
proof -
  let ?cs = "[(0, 1), (2, 3), (0, 2), (4, 5), (6, 7), (4, 6), (0, 4)] :: (addr \<times> addr) list"
  let ?R = "set ?cs \<union> (set ?cs)\<inverse>"
  have "(7, 6) \<in> ?R" "(6, 4) \<in> ?R" "(4, 0) \<in> ?R" by simp_all
  then have "(7, 0) \<in> ?R\<^sup>*"
    by (meson converse_rtrancl_into_rtrancl rtrancl.rtrancl_refl)
  then have "connected ?cs 7 0" unfolding connected_def .
  then show ?thesis by (simp add: uf_eval)
qed

text \<open>
  Claim C3 (find is idempotent) does not hold of the code: on the same forest
  \<open>7->_root()\<close> is \<open>4\<close> and \<open>_root\<close> of that result is \<open>0\<close>, whether the second call runs in
  the store the first one left or in the store before it.
\<close>

theorem root_not_idempotent:
  "\<exists>s. unions True [(0, 1), (2, 3), (0, 2), (4, 5), (6, 7), (4, 6), (0, 4)] (fresh h) = Inr s
     \<and> fst (Node_root 7 s) = 4
     \<and> fst (Node_root (fst (Node_root 7 s)) (snd (Node_root 7 s))) = 0
     \<and> fst (Node_root (fst (Node_root 7 s)) s) = 0"
  by (simp add: uf_eval)

subsection \<open>Union of two nodes of one set\<close>

text \<open>
  Claim C4 (union is a no-op when both nodes have the same find, and the assertion does not
  fire) does not hold of the code. Four fresh nodes and the calls \<open>0->_union(1)\<close>,
  \<open>2->_union(3)\<close>, \<open>0->_union(2)\<close> give the chain \<open>3 \<rightarrow> 2 \<rightarrow> 0\<close>. Nodes \<open>3\<close> and \<open>0\<close> have
  the same root \<open>0\<close> but different parents, so \<open>3->_union(0)\<close> passes the early return and
  finds two equal roots: the assertion fails; without assertions the size counter of the
  root is doubled from 4 to 8.
\<close>

theorem union_same_set_not_noop:
  "\<exists>s. unions True [(0, 1), (2, 3), (0, 2)] (fresh h) = Inr s
     \<and> fst (Node_root 3 s) = 0 \<and> fst (Node_root 0 s) = 0
     \<and> Node_union True 3 0 s = Inl AssertionFailed
     \<and> tree_size (s 0) = 4
     \<and> (\<exists>s'. Node_union False 3 0 s = Inr s' \<and> tree_size (s' 0) = 8)"
  by (simp add: uf_eval)

subsection \<open>Three singletons\<close>

text \<open>
  Claim C8. For three distinct nodes \<open>b\<close>, \<open>c\<close>, \<open>d\<close> that are singletons (each its own
  parent, with size counter 1), the calls \<open>b->_union(c)\<close> and \<open>c->_union(d)\<close> succeed, with
  or without assertions; afterwards \<open>_root\<close> of \<open>b\<close> and of \<open>d\<close> are the same node (also when
  the second call runs in the store the first one left), that node is its own parent, and
  its size counter is 3.
\<close>

theorem union_three_singletons:
  assumes "distinct [b, c, d]"
    and "parent (s0 b) = b" and "parent (s0 c) = c" and "parent (s0 d) = d"
    and "tree_size (s0 b) = 1" and "tree_size (s0 c) = 1" and "tree_size (s0 d) = 1"
  shows "\<exists>s. unions asserts [(b, c), (c, d)] s0 = Inr s
           \<and> fst (Node_root b s) = fst (Node_root d s)
           \<and> fst (Node_root d (snd (Node_root b s))) = fst (Node_root b s)
           \<and> parent (s (fst (Node_root b s))) = fst (Node_root b s)
           \<and> tree_size (s (fst (Node_root b s))) = 3"
  using assms by (simp add: Node_union_def Node_root_unfold Let_def)

theorem union_three_singletons_witness:
  "distinct [0, 1, 2 :: addr]
   \<and> parent (fresh hosts 0) = 0 \<and> tree_size (fresh hosts 0) = 1
   \<and> parent (fresh hosts 1) = 1 \<and> tree_size (fresh hosts 1) = 1
   \<and> parent (fresh hosts 2) = 2 \<and> tree_size (fresh hosts 2) = 1
   \<and> (\<exists>s. unions True [(0, 1), (1, 2)] (fresh hosts) = Inr s
           \<and> fst (Node_root 0 s) = fst (Node_root 2 s)
           \<and> tree_size (s (fst (Node_root 0 s))) = 3)"
proof -
  let ?s0 = "fresh hosts :: unit store"
  have d: "distinct [0, 1, 2 :: addr]" by simp
  have p: "parent (?s0 0) = 0" "parent (?s0 1) = 1" "parent (?s0 2) = 2"
    by (simp_all add: fresh_def Node_def)
  have t: "tree_size (?s0 0) = 1" "tree_size (?s0 1) = 1" "tree_size (?s0 2) = 1"
    by (simp_all add: fresh_def Node_def)
  from union_three_singletons [OF d p t, of True] d p t show ?thesis by blast
qed

subsection \<open>Dependency edges\<close>

text \<open>
  Claim C10. A call \<open>u->_precede(v)\<close> with \<open>u \<noteq> v\<close> appends \<open>v\<close> to the successors of
  \<open>u\<close>, appends \<open>u\<close> to the dependents of \<open>v\<close> and adds one to the counter of \<open>v\<close>; the
  new store is the old one with exactly these three members replaced, so every other
  member of \<open>u\<close> and of \<open>v\<close> and every other node is as before.
\<close>

theorem precede_frame:
  assumes "u \<noteq> v"
  shows "Node_precede u v s =
           s(u := (s u)\<lparr>successors := successors (s u) @ [v]\<rparr>,
             v := (s v)\<lparr>dependents := dependents (s v) @ [u],
                        num_dependents := num_dependents (s v) + 1\<rparr>)"
  using assms by (simp add: Node_precede_def Let_def)

theorem precede_frame_witness:
  "(0 :: addr) \<noteq> 1
   \<and> Node_precede 0 1 (fresh hosts) =
       (fresh hosts)
         (0 := (Node 0 (hosts 0))\<lparr>successors := [1]\<rparr>,
          1 := (Node 1 (hosts 1))\<lparr>dependents := [0], num_dependents := 1\<rparr>)"
proof -
  have ne: "(0 :: addr) \<noteq> 1" by simp
  from precede_frame [OF ne, of "fresh hosts"] ne
  show ?thesis by (simp add: fresh_def Node_def)
qed

text \<open>The members one call changes, for any two nodes, equal or not.\<close>

lemma precede_successors:
  "successors (Node_precede u v s w) = successors (s w) @ (if w = u then [v] else [])"
  by (simp add: Node_precede_def Let_def)

lemma precede_dependents:
  "dependents (Node_precede u v s w) = dependents (s w) @ (if w = v then [u] else [])"
  by (simp add: Node_precede_def Let_def)

lemma precede_num_dependents:
  "num_dependents (Node_precede u v s w) = num_dependents (s w) + (if w = v then 1 else 0)"
  by (simp add: Node_precede_def Let_def)

text \<open>After a sequence of calls: what was there, then one entry for each call, in order.\<close>

lemma precedes_successors:
  "successors (precedes calls s w) = successors (s w) @ map snd (filter (\<lambda>c. fst c = w) calls)"
  by (induction calls s rule: precedes.induct) (simp_all add: precede_successors)

lemma precedes_dependents:
  "dependents (precedes calls s w) = dependents (s w) @ map fst (filter (\<lambda>c. snd c = w) calls)"
  by (induction calls s rule: precedes.induct) (simp_all add: precede_dependents)

lemma precedes_num_dependents:
  "num_dependents (precedes calls s w) = num_dependents (s w) + of_nat (calls_to w calls)"
  by (induction calls s rule: precedes.induct)
    (simp_all add: precede_num_dependents calls_to_def)

lemma count_snd_filter_fst:
  "count_list (map snd (filter (\<lambda>c. fst c = u) calls)) v = count_list calls (u, v)"
  by (induction calls) auto

lemma count_fst_filter_snd:
  "count_list (map fst (filter (\<lambda>c. snd c = v) calls)) u = count_list calls (u, v)"
  by (induction calls) auto

lemma sint_of_nat_small:
  assumes "n < 2 ^ 31"
  shows "sint (of_nat n :: 32 word) = int n"
proof -
  have "int n < 2 ^ 31" using assms by simp
  then have "signed_take_bit 31 (int n) = int n"
    by (intro signed_take_bit_int_eq_self) simp_all
  then show ?thesis by (simp add: signed_of_nat)
qed

text \<open>
  Claim C5 says that after any sequence of calls, for every recorded edge, \<open>v\<close> occurs
  exactly once in the successors of \<open>u\<close> and \<open>u\<close> exactly once in the dependents of \<open>v\<close>.
  The code appends on every call and never looks for an entry that is already there:
  after \<open>0->_precede(1)\<close> twice, \<open>1\<close> occurs twice in the successors of \<open>0\<close> and \<open>0\<close> twice
  in the dependents of \<open>1\<close>.
\<close>

theorem precede_twice_two_entries:
  "(0 :: addr, 1 :: addr) \<in> set [(0, 1), (0, 1)]
   \<and> count_list (successors (precedes [(0, 1), (0, 1)] (fresh hosts) 0)) 1 = 2
   \<and> count_list (dependents (precedes [(0, 1), (0, 1)] (fresh hosts) 1)) 0 = 2"
  by (simp add: Node_precede_def fresh_def Node_def Let_def)

text \<open>
  Claim C5, amended. After any sequence of \<open>_precede\<close> calls on fresh nodes, \<open>v\<close> occurs
  in the successors of \<open>u\<close> once for each call \<open>u->_precede(v)\<close>, and \<open>u\<close> occurs in the
  dependents of \<open>v\<close> equally often: exactly once when the pair was named by exactly one
  call. The counter of \<open>v\<close> is the number of calls that named \<open>v\<close> as target, as a 32-bit
  integer; read as a signed \<open>int\<close> it is that number as long as it is below \<open>2^31\<close>.
\<close>

theorem precede_edges_and_counter:
  "count_list (successors (precedes calls (fresh h) u)) v = count_list calls (u, v)
   \<and> count_list (dependents (precedes calls (fresh h) v)) u = count_list calls (u, v)
   \<and> (count_list calls (u, v) = 1 \<longrightarrow>
        count_list (successors (precedes calls (fresh h) u)) v = 1
        \<and> count_list (dependents (precedes calls (fresh h) v)) u = 1)
   \<and> num_dependents (precedes calls (fresh h) v) = of_nat (calls_to v calls)
   \<and> (calls_to v calls < 2 ^ 31 \<longrightarrow>
        sint (num_dependents (precedes calls (fresh h) v)) = int (calls_to v calls))"
  by (simp add: precedes_successors precedes_dependents precedes_num_dependents
      count_snd_filter_fst count_fst_filter_snd sint_of_nat_small fresh_def Node_def)

theorem precede_edges_and_counter_witness:
  "count_list [(0, 1), (1, 2), (0, 2)] (0 :: addr, 2 :: addr) = 1
   \<and> calls_to 2 [(0, 1), (1, 2), (0, 2)] < 2 ^ 31
   \<and> count_list (successors (precedes [(0, 1), (1, 2), (0, 2)] (fresh hosts) 0)) 2 = 1
   \<and> count_list (dependents (precedes [(0, 1), (1, 2), (0, 2)] (fresh hosts) 2)) 0 = 1
   \<and> sint (num_dependents (precedes [(0, 1), (1, 2), (0, 2)] (fresh hosts) 2)) = 2"
  using precede_edges_and_counter [of "[(0, 1), (1, 2), (0, 2)]" hosts 0 2]
  by (simp add: calls_to_def)

text \<open>
  The first scenario of the specification: nodes \<open>0\<close> (Host), \<open>1\<close> (Pull on device 0) and
  \<open>2\<close> (Kernel on device 0 with source \<open>1\<close>), and the calls \<open>0->_precede(1)\<close>,
  \<open>1->_precede(2)\<close>.
\<close>

lemma precede_scenario:
  fixes s :: "unit store"
  defines "s \<equiv> precedes [(0, 1), (1, 2)]
     (fresh (\<lambda>a. if a = 0 then Host () else if a = 1 then Pull () 0 None 0
                  else Kernel () 0 [1]))"
  shows "map (\<lambda>a. num_dependents (s a)) [0, 1, 2] = [0, 1, 1]"
    and "successors (s 0) = [1]" and "dependents (s 1) = [0]"
  unfolding s_def by (simp_all add: Node_precede_def fresh_def Node_def Let_def)

subsection \<open>Rendering\<close>

lemma dump_edges_foldl:
  "foldl (\<lambda>os su. os @ ''p'' @ pr this @ '' -> '' @ ''p'' @ pr su @ '';'' @ [nl]) os ss
     = os @ concat (map (spec_edge_line pr this) ss)"
  by (induction ss arbitrary: os) (simp_all add: spec_edge_line_def)

lemma dump_os_format:
  "dump_os pr this s os =
     os @ spec_decl_line pr this (s this)
        @ concat (map (spec_edge_line pr this) (successors (s this)))"
  unfolding dump_os_def Let_def dump_edges_foldl
  by (cases "handle (s this)") (simp_all add: spec_decl_line_def spec_label_def)

text \<open>
  Lines: when neither the name nor a printed address contains a newline, the output has
  one line for the declaration and one for each successor.
\<close>

lemma count_nl_0: "nl \<notin> set xs \<Longrightarrow> count_list xs nl = 0"
  by (simp add: count_list_0_iff)

lemma spec_style_no_nl: "count_list (spec_style h) nl = 0"
  by (cases h) (simp_all add: nl_def dq_def)

lemma spec_decl_line_one_nl:
  assumes "nl \<notin> set (name n)" and "nl \<notin> set (pr a)"
  shows "count_list (spec_decl_line pr a n) nl = 1"
  using assms
  by (simp add: spec_decl_line_def spec_label_def spec_style_no_nl count_nl_0)
     (simp add: nl_def dq_def)

lemma spec_edge_line_one_nl:
  assumes "nl \<notin> set (pr a)" and "nl \<notin> set (pr b)"
  shows "count_list (spec_edge_line pr a b) nl = 1"
  using assms by (simp add: spec_edge_line_def count_nl_0) (simp add: nl_def)

lemma count_concat_edges:
  assumes "\<And>a. nl \<notin> set (pr a)"
  shows "count_list (concat (map (spec_edge_line pr a) ss)) nl = length ss"
  by (induction ss) (simp_all add: spec_edge_line_one_nl assms)

lemma dump_line_count:
  assumes "nl \<notin> set (name (s this))" and "\<And>a. nl \<notin> set (pr a)"
  shows "count_list (dump pr this s) nl = 1 + length (successors (s this))"
  using assms
  by (simp add: dump_def dump_os_format spec_decl_line_one_nl count_concat_edges)

text \<open>
  Claim C9. What \<open>dump\<close> writes for a node is the declaration line of the specification
  (label: the name when non-empty, otherwise \<open>p<address>\<close>; style by payload kind) followed
  by the edge lines of its successors, one each, in the order of the successor list; the
  stream overload appends exactly this to what the stream held.
\<close>

theorem dump_format:
  "dump pr this s =
     spec_decl_line pr this (s this)
       @ concat (map (spec_edge_line pr this) (successors (s this)))
   \<and> dump_os pr this s os = os @ dump pr this s"
  by (simp add: dump_def dump_os_format)

text \<open>
  The fourth scenario of the specification: a Host node \<open>0\<close> that precedes a Kernel node
  \<open>1\<close>.
\<close>

lemma dump_host_kernel:
  fixes s :: "unit store"
  defines "s \<equiv> Node_precede 0 1 (fresh (\<lambda>a. if a = 0 then Host () else Kernel () (- 1) []))"
  shows "dump pr 0 s = ''p'' @ pr 0 @ ''[label='' @ [dq] @ ''p'' @ pr 0 @ [dq] @ ''];'' @ [nl]
                        @ ''p'' @ pr 0 @ '' -> p'' @ pr 1 @ '';'' @ [nl]"
    and "dump pr 1 s = ''p'' @ pr 1 @ ''[label='' @ [dq] @ ''p'' @ pr 1 @ [dq]
                        @ '' style=filled fillcolor='' @ [dq] @ ''black'' @ [dq]
                        @ '' fontcolor='' @ [dq] @ ''white'' @ [dq] @ ''];'' @ [nl]"
  unfolding s_def
  by (simp_all add: dump_def dump_os_def Node_precede_def fresh_def Node_def Let_def)

subsection \<open>Device group\<close>

lemma claims_assigned:
  "device_id g \<noteq> - 1 \<Longrightarrow> claims ds g = (replicate (length ds) (device_id g), g)"
  by (induction ds) (simp_all add: claim_def)

text \<open>
  Claim C6 says that under any interleaving of calls with distinct proposals every call
  returns the same device id, one of the proposals. It names no condition on the
  proposals or on the group, and fails without them. A proposal equal to the sentinel
  leaves the group unassigned: the calls with the proposals \<open>-1\<close> and \<open>0\<close>, in this order
  on a new group, return \<open>-1\<close> and \<open>0\<close>. On a group that already holds device \<open>5\<close> the
  calls with the proposals \<open>0\<close> and \<open>1\<close> both return \<open>5\<close>, which is none of the proposals.
\<close>

theorem claim_sentinel_or_assigned:
  "distinct [- 1, 0 :: 32 word]
   \<and> claims [- 1, 0] DeviceGroup_init = ([- 1, 0], DeviceGroup_init\<lparr>device_id := 0\<rparr>)
   \<and> (- 1 :: 32 word) \<noteq> 0
   \<and> distinct [0, 1 :: 32 word]
   \<and> claims [0, 1] (DeviceGroup_init\<lparr>device_id := 5\<rparr>)
       = ([5, 5], DeviceGroup_init\<lparr>device_id := 5\<rparr>)
   \<and> (5 :: 32 word) \<notin> set [0, 1]"
  by (simp add: claim_def DeviceGroup_init_def)

text \<open>
  Claim C6, amended. A call of \<open>claim\<close> on an unassigned group installs and returns its
  proposal; on an assigned group it returns the installed value and leaves the group as it
  is. When calls whose proposals differ from the sentinel run on an unassigned group, in
  whatever order their atomic steps take effect, every call returns the same value, the
  proposal of the call that came first in that order, which is one of the proposals, and
  the group holds that value at the end.
\<close>

theorem claim_single_winner:
  assumes "device_id g = - 1" and "- 1 \<notin> set order"
  shows "claim g' d =
           (if device_id g' = - 1 then (d, g'\<lparr>device_id := d\<rparr>) else (device_id g', g'))
    \<and> fst (claims order g) = replicate (length order) (hd order)
    \<and> (\<forall>r \<in> set (fst (claims order g)). r \<in> set order)
    \<and> snd (claims order g) = (if order = [] then g else g\<lparr>device_id := hd order\<rparr>)"
proof (cases order)
  case Nil
  then show ?thesis by (simp add: claim_def)
next
  case (Cons w ws)
  with assms have "w \<noteq> - 1" by auto
  then have "claims ws (g\<lparr>device_id := w\<rparr>) = (replicate (length ws) w, g\<lparr>device_id := w\<rparr>)"
    using claims_assigned [of "g\<lparr>device_id := w\<rparr>" ws] by simp
  with Cons assms show ?thesis by (simp add: claim_def)
qed

theorem claim_single_winner_witness:
  "device_id DeviceGroup_init = - 1
   \<and> - 1 \<notin> set [0, 1 :: 32 word] \<and> - 1 \<notin> set [1, 0 :: 32 word]
   \<and> claims [0, 1] DeviceGroup_init = ([0, 0], DeviceGroup_init\<lparr>device_id := 0\<rparr>)
   \<and> claims [1, 0] DeviceGroup_init = ([1, 1], DeviceGroup_init\<lparr>device_id := 1\<rparr>)"
proof -
  have a: "device_id DeviceGroup_init = - 1" by (simp add: DeviceGroup_init_def)
  have c: "- 1 \<notin> set [0, 1 :: 32 word]" "- 1 \<notin> set [1, 0 :: 32 word]" by simp_all
  note t1 = claim_single_winner [OF a c(1), of DeviceGroup_init 0]
  note t2 = claim_single_winner [OF a c(2), of DeviceGroup_init 0]
  from t1 have f1: "fst (claims [0, 1] DeviceGroup_init) = replicate (length [0, 1 :: 32 word]) (hd [0, 1])"
    and s1: "snd (claims [0, 1] DeviceGroup_init) =
      (if [0, 1 :: 32 word] = [] then DeviceGroup_init else DeviceGroup_init\<lparr>device_id := hd [0, 1]\<rparr>)"
    by blast+
  from t2 have f2: "fst (claims [1, 0] DeviceGroup_init) = replicate (length [1, 0 :: 32 word]) (hd [1, 0])"
    and s2: "snd (claims [1, 0] DeviceGroup_init) =
      (if [1, 0 :: 32 word] = [] then DeviceGroup_init else DeviceGroup_init\<lparr>device_id := hd [1, 0]\<rparr>)"
    by blast+
  have "claims [0, 1] DeviceGroup_init = ([0, 0], DeviceGroup_init\<lparr>device_id := 0\<rparr>)"
    by (simp add: prod_eq_iff f1 s1 numeral_2_eq_2 del: claims.simps)
  moreover have "claims [1, 0] DeviceGroup_init = ([1, 1], DeviceGroup_init\<lparr>device_id := 1\<rparr>)"
    by (simp add: prod_eq_iff f2 s2 numeral_2_eq_2 del: claims.simps)
  ultimately show ?thesis using a c by blast
qed

end
